theory Spec2Isabelle
  imports Main "HOL-Library.Word"
begin

unbundle bit_operations_syntax

section \<open>The history store\<close>

text \<open>
  The edit history keeps one append-only log of edit events per file path and a
  process-wide sequence counter. JavaScript numbers that hold sequence numbers, line
  numbers and timestamps are modelled as unbounded integers; an optional property is an
  \<open>option\<close>, absent being \<open>None\<close>.
\<close>

subsection \<open>Types\<close>

record EditMeta =
  meta_undo :: "bool option"
  meta_undoTarget :: "int option"
  meta_redo :: "bool option"
  meta_redoTarget :: "int option"
  instruction :: "string option"
  mode :: "string option"

text \<open>
  The argument of \<open>appendEvent\<close> has every property of an event but \<open>seq\<close> and
  \<open>timestamp\<close>; the event extends it by these two.
\<close>

record EditPayload =
  filePath :: string
  startLine :: int
  endLine :: int
  original :: string
  modified :: string
  originalLineCount :: int
  modifiedLineCount :: int
  hashBefore :: string
  hashAfter :: string
  meta :: "EditMeta option"

record EditEvent = EditPayload +
  seq :: int
  timestamp :: int

subsection \<open>The store and its two mutators\<close>

text \<open>
  The module state: the map from file path to log, and the counter \<open>globalSeq\<close>.
\<close>

record HistoryState =
  store :: "string \<rightharpoonup> EditEvent list"
  globalSeq :: int

definition initialState :: HistoryState where
  "initialState = \<lparr>store = Map.empty, globalSeq = 0\<rparr>"

definition resetStore :: "HistoryState \<Rightarrow> HistoryState" where
  "resetStore st = \<lparr>store = Map.empty, globalSeq = 0\<rparr>"

definition getEvents :: "HistoryState \<Rightarrow> string \<Rightarrow> EditEvent list" where
  "getEvents st path = (case store st path of None \<Rightarrow> [] | Some events \<Rightarrow> events)"

text \<open>
  \<open>appendEvent\<close> increments the counter first, builds the full event from the payload,
  the new counter value and the clock reading \<open>now\<close>, pushes it onto the log of the
  path it was called with and returns it. There is no branch that fails.
\<close>

definition appendEvent ::
  "HistoryState \<Rightarrow> string \<Rightarrow> EditPayload \<Rightarrow> int \<Rightarrow> EditEvent \<times> HistoryState" where
  "appendEvent st path event now =
    (let g = globalSeq st + 1;
         full = \<lparr>filePath = filePath event, startLine = startLine event,
                 endLine = endLine event, original = original event,
                 modified = modified event,
                 originalLineCount = originalLineCount event,
                 modifiedLineCount = modifiedLineCount event,
                 hashBefore = hashBefore event, hashAfter = hashAfter event,
                 meta = meta event, seq = g, timestamp = now\<rparr>;
         events = (case store st path of None \<Rightarrow> [] | Some l \<Rightarrow> l)
     in (full, \<lparr>store = (store st)(path \<mapsto> events @ [full]), globalSeq = g\<rparr>))"

subsection \<open>Queries on a log\<close>

text \<open>
  \<open>e.meta?._undo\<close> is truthy exactly when the meta object is present and its flag is
  \<open>true\<close>; likewise for \<open>_redo\<close>.
\<close>

definition undoFlag :: "'a EditPayload_scheme \<Rightarrow> bool" where
  "undoFlag e = (case meta e of None \<Rightarrow> False | Some m \<Rightarrow> meta_undo m = Some True)"

definition redoFlag :: "'a EditPayload_scheme \<Rightarrow> bool" where
  "redoFlag e = (case meta e of None \<Rightarrow> False | Some m \<Rightarrow> meta_redo m = Some True)"

text \<open>
  One pass of the loop body of \<open>buildIneffectiveSeqs\<close>: the undo target is added when
  the undo flag is set and the target is not null, then the same for redo.
\<close>

definition addTargets :: "EditEvent \<Rightarrow> int set \<Rightarrow> int set" where
  "addTargets e ineffective =
    (let s1 = (if undoFlag e
               then (case meta e of None \<Rightarrow> ineffective
                     | Some m \<Rightarrow> (case meta_undoTarget m of None \<Rightarrow> ineffective
                                 | Some t \<Rightarrow> insert t ineffective))
               else ineffective)
     in (if redoFlag e
         then (case meta e of None \<Rightarrow> s1
               | Some m \<Rightarrow> (case meta_redoTarget m of None \<Rightarrow> s1
                           | Some t \<Rightarrow> insert t s1))
         else s1))"

definition buildIneffectiveSeqs :: "EditEvent list \<Rightarrow> int set" where
  "buildIneffectiveSeqs events = fold addTargets events {}"

text \<open>
  The two backward scans. The counter \<open>n\<close> is the loop index plus one, so the loop
  \<open>for (i = length - 1; i >= 0; i--)\<close> starts at \<open>n = length events\<close> and ends at
  \<open>0\<close>; the index is always in range.
\<close>

fun scanEffective :: "EditEvent list \<Rightarrow> int set \<Rightarrow> nat \<Rightarrow> EditEvent option" where
  "scanEffective events ineffective 0 = None"
| "scanEffective events ineffective (Suc i) =
    (let e = events ! i
     in if seq e \<notin> ineffective \<and> \<not> undoFlag e then Some e
        else scanEffective events ineffective i)"

definition findLastEffective :: "EditEvent list \<Rightarrow> int set \<Rightarrow> EditEvent option" where
  "findLastEffective events ineffective = scanEffective events ineffective (length events)"

fun scanUndone :: "EditEvent list \<Rightarrow> int set \<Rightarrow> nat \<Rightarrow> EditEvent option" where
  "scanUndone events ineffective 0 = None"
| "scanUndone events ineffective (Suc i) =
    (let e = events ! i
     in if seq e \<notin> ineffective \<and> undoFlag e then Some e
        else scanUndone events ineffective i)"

definition findLastUndone :: "EditEvent list \<Rightarrow> int set \<Rightarrow> EditEvent option" where
  "findLastUndone events ineffective = scanUndone events ineffective (length events)"

definition canUndo :: "HistoryState \<Rightarrow> string \<Rightarrow> bool" where
  "canUndo st path =
    (let events = getEvents st path;
         ineffective = buildIneffectiveSeqs events
     in findLastEffective events ineffective \<noteq> None)"

definition canRedo :: "HistoryState \<Rightarrow> string \<Rightarrow> bool" where
  "canRedo st path =
    (let events = getEvents st path;
         ineffective = buildIneffectiveSeqs events
     in findLastUndone events ineffective \<noteq> None)"

subsection \<open>The content hash\<close>

text \<open>
  \<open>hashContent\<close> is \<open>createHash('sha256').update(content).digest('hex')\<close>: the SHA-256
  digest (FIPS 180-4) of the UTF-8 encoding of the text, written as lowercase hexadecimal.
  A text is modelled by its UTF-8 bytes, one \<open>char\<close> per byte. The digest is computed on
  32-bit words, whose addition wraps; \<open>rotr\<close> is the standard's rotation
  \<open>(x >> n) | (x << (32 - n))\<close>.
\<close>

type_synonym w32 = "32 word"
type_synonym digest = "w32 \<times> w32 \<times> w32 \<times> w32 \<times> w32 \<times> w32 \<times> w32 \<times> w32"

definition Ch :: "w32 \<Rightarrow> w32 \<Rightarrow> w32 \<Rightarrow> w32" where
  "Ch x y z = (x AND y) XOR (NOT x AND z)"

definition Maj :: "w32 \<Rightarrow> w32 \<Rightarrow> w32 \<Rightarrow> w32" where
  "Maj x y z = (x AND y) XOR (x AND z) XOR (y AND z)"

definition rotr :: "nat \<Rightarrow> w32 \<Rightarrow> w32" where
  "rotr n x = drop_bit n x OR push_bit (32 - n) x"

definition bigSigma0 :: "w32 \<Rightarrow> w32" where
  "bigSigma0 x = rotr 2 x XOR rotr 13 x XOR rotr 22 x"

definition bigSigma1 :: "w32 \<Rightarrow> w32" where
  "bigSigma1 x = rotr 6 x XOR rotr 11 x XOR rotr 25 x"

definition smallSigma0 :: "w32 \<Rightarrow> w32" where
  "smallSigma0 x = rotr 7 x XOR rotr 18 x XOR drop_bit 3 x"

definition smallSigma1 :: "w32 \<Rightarrow> w32" where
  "smallSigma1 x = rotr 17 x XOR rotr 19 x XOR drop_bit 10 x"

text \<open>
  The 64 round constants, in the eight rows of eight of the standard's table, and the
  initial hash value.
\<close>

definition roundConstants :: "w32 list" where
  "roundConstants = concat
   [[0x428a2f98, 0x71374491, 0xb5c0fbcf, 0xe9b5dba5, 0x3956c25b, 0x59f111f1, 0x923f82a4, 0xab1c5ed5],
    [0xd807aa98, 0x12835b01, 0x243185be, 0x550c7dc3, 0x72be5d74, 0x80deb1fe, 0x9bdc06a7, 0xc19bf174],
    [0xe49b69c1, 0xefbe4786, 0x0fc19dc6, 0x240ca1cc, 0x2de92c6f, 0x4a7484aa, 0x5cb0a9dc, 0x76f988da],
    [0x983e5152, 0xa831c66d, 0xb00327c8, 0xbf597fc7, 0xc6e00bf3, 0xd5a79147, 0x06ca6351, 0x14292967],
    [0x27b70a85, 0x2e1b2138, 0x4d2c6dfc, 0x53380d13, 0x650a7354, 0x766a0abb, 0x81c2c92e, 0x92722c85],
    [0xa2bfe8a1, 0xa81a664b, 0xc24b8b70, 0xc76c51a3, 0xd192e819, 0xd6990624, 0xf40e3585, 0x106aa070],
    [0x19a4c116, 0x1e376c08, 0x2748774c, 0x34b0bcb5, 0x391c0cb3, 0x4ed8aa4a, 0x5b9cca4f, 0x682e6ff3],
    [0x748f82ee, 0x78a5636f, 0x84c87814, 0x8cc70208, 0x90befffa, 0xa4506ceb, 0xbef9a3f7, 0xc67178f2]]"

definition initialDigest :: digest where
  "initialDigest =
   (0x6a09e667, 0xbb67ae85, 0x3c6ef372, 0xa54ff53a, 0x510e527f, 0x9b05688c, 0x1f83d9ab, 0x5be0cd19)"

text \<open>
  Padding: the byte \<open>0x80\<close>, then zero bytes up to 56 modulo 64, then the bit length as
  a 64-bit big-endian number. Bytes are numbers below 256 here.
\<close>

definition padMessage :: "nat list \<Rightarrow> nat list" where
  "padMessage bytes =
    (let n = length bytes;
         zeros = (119 - n mod 64) mod 64;
         bits = 8 * n
     in bytes @ [128] @ replicate zeros 0 @
        map (\<lambda>i. (bits div 256 ^ (7 - i)) mod 256) [0..<8])"

fun toWords :: "nat list \<Rightarrow> w32 list" where
  "toWords (a # b # c # d # rest) = of_nat (((a * 256 + b) * 256 + c) * 256 + d) # toWords rest"
| "toWords rest = []"

fun toBlocks :: "nat \<Rightarrow> w32 list \<Rightarrow> w32 list list" where
  "toBlocks 0 ws = []"
| "toBlocks (Suc n) ws = take 16 ws # toBlocks n (drop 16 ws)"

text \<open>
  The message schedule extends the 16 words of a block to 64; \<open>expandSchedule n\<close> appends
  \<open>n\<close> further words, each computed from the words 2, 7, 15 and 16 places before it.
\<close>

fun expandSchedule :: "nat \<Rightarrow> w32 list \<Rightarrow> w32 list" where
  "expandSchedule 0 w = w"
| "expandSchedule (Suc n) w =
    expandSchedule n
      (w @ [smallSigma1 (w ! (length w - 2)) + w ! (length w - 7) +
            smallSigma0 (w ! (length w - 15)) + w ! (length w - 16)])"

fun compressRound :: "w32 \<times> w32 \<Rightarrow> digest \<Rightarrow> digest" where
  "compressRound (k, w) (a, b, c, d, e, f, g, h) =
    (let t1 = h + bigSigma1 e + Ch e f g + k + w;
         t2 = bigSigma0 a + Maj a b c
     in (t1 + t2, a, b, c, d + t1, e, f, g))"

fun addDigest :: "digest \<Rightarrow> digest \<Rightarrow> digest" where
  "addDigest (a, b, c, d, e, f, g, h) (a', b', c', d', e', f', g', h') =
    (a + a', b + b', c + c', d + d', e + e', f + f', g + g', h + h')"

definition compressBlock :: "w32 list \<Rightarrow> digest \<Rightarrow> digest" where
  "compressBlock block hv =
    addDigest hv (fold compressRound (zip roundConstants (expandSchedule 48 block)) hv)"

definition sha256 :: "nat list \<Rightarrow> digest" where
  "sha256 bytes =
    (let padded = padMessage bytes
     in fold compressBlock (toBlocks (length padded div 64) (toWords padded)) initialDigest)"

text \<open>
  The hexadecimal encoding: eight digits per word, most significant first.
\<close>

definition hexDigit :: "nat \<Rightarrow> char" where
  "hexDigit n = ''0123456789abcdef'' ! (n mod 16)"

definition hexWord :: "w32 \<Rightarrow> string" where
  "hexWord w = map (\<lambda>i. hexDigit (unat w div 16 ^ (7 - i))) [0..<8]"

fun hexDigest :: "digest \<Rightarrow> string" where
  "hexDigest (a, b, c, d, e, f, g, h) =
    hexWord a @ hexWord b @ hexWord c @ hexWord d @ hexWord e @ hexWord f @ hexWord g @ hexWord h"

definition hashContent :: "string \<Rightarrow> string" where
  "hashContent content = hexDigest (sha256 (map of_char content))"

section \<open>The edit, undo and redo protocol\<close>

text \<open>
  Modelled from the spec: the request handlers of \<open>src/server/api.ts\<close> (registered by
  \<open>registerApiRoutes\<close> in \<open>src/server/index.ts\<close>) are not among the sources; only
  their tests and their caller are. The definitions of this section follow sections 4.2, 6
  and 7 of the specification. The four failures of its error taxonomy and their HTTP
  status codes:
\<close>

datatype error = ValidationError | EmptyHistoryError | ConflictError | NotFoundError

fun httpStatus :: "error \<Rightarrow> nat" where
  "httpStatus ValidationError = 400"
| "httpStatus EmptyHistoryError = 400"
| "httpStatus ConflictError = 409"
| "httpStatus NotFoundError = 404"

text \<open>
  Modelled from the spec: a successful response; undo and redo add a scroll hint, which
  is built from the first line of the text now present at the mutated range.
\<close>

datatype response = Success | SuccessWithHint string

text \<open>
  Modelled from the spec: what the handlers read and write, the files under the root
  directory (a file path to its content, absent when there is no such file) and the
  history store.
\<close>

record World =
  files :: "string \<rightharpoonup> string"
  history :: HistoryState

text \<open>
  Modelled from the spec: a file is a sequence of lines separated by the newline
  character, as in the specification's scenarios (\<open>"line1\nline2\nline3\n"\<close> with line 2
  replaced is \<open>"line1\nMODIFIED\nline3\n"\<close>). \<open>splitLines\<close> cuts a text at every
  newline, so a text that ends in a newline has an empty last line, and \<open>joinLines\<close> puts
  the newlines back.
\<close>

fun splitLines :: "string \<Rightarrow> string list" where
  "splitLines [] = [[]]"
| "splitLines (c # cs) =
    (if c = CHR 0x0A then [] # splitLines cs
     else (case splitLines cs of [] \<Rightarrow> [[c]] | l # ls \<Rightarrow> (c # l) # ls))"

fun joinLines :: "string list \<Rightarrow> string" where
  "joinLines [] = []"
| "joinLines [l] = l"
| "joinLines (l # ls) = l @ CHR 0x0A # joinLines ls"

text \<open>
  Modelled from the spec: the number of lines of a text, the lines of the 1-based
  inclusive range \<open>[s, e]\<close>, the lines with that range replaced, and the first line of a
  text. The specification defines a range only inside the file; outside it these
  definitions take what is there.
\<close>

definition lineCount :: "string \<Rightarrow> int" where
  "lineCount text = int (length (splitLines text))"

definition extractRange :: "string list \<Rightarrow> int \<Rightarrow> int \<Rightarrow> string list" where
  "extractRange lines s e = take (nat (e - s + 1)) (drop (nat (s - 1)) lines)"

definition replaceRange :: "string list \<Rightarrow> int \<Rightarrow> int \<Rightarrow> string list \<Rightarrow> string list" where
  "replaceRange lines s e new = take (nat (s - 1)) lines @ new @ drop (nat e) lines"

definition firstLine :: "string \<Rightarrow> string" where
  "firstLine text = (case splitLines text of [] \<Rightarrow> [] | l # ls \<Rightarrow> l)"

text \<open>
  Modelled from the spec: the text of the range \<open>[s, e]\<close> of a file, and the file with
  that range replaced by a text.
\<close>

definition rangeText :: "string \<Rightarrow> int \<Rightarrow> int \<Rightarrow> string" where
  "rangeText content s e = joinLines (extractRange (splitLines content) s e)"

definition editedContent :: "string \<Rightarrow> int \<Rightarrow> int \<Rightarrow> string \<Rightarrow> string" where
  "editedContent content s e text =
    joinLines (replaceRange (splitLines content) s e (splitLines text))"

text \<open>
  Modelled from the spec: Apply (section 4.2). A missing file path or
  \<open>startLine > endLine\<close> is a validation error, a missing file is not found; otherwise
  the file is read and hashed, the range is extracted and replaced, the new file is
  written and hashed, and a plain event (no meta) is appended. Every failure returns the
  world it was given.
\<close>

definition applyPayload :: "string \<Rightarrow> int \<Rightarrow> int \<Rightarrow> string \<Rightarrow> string \<Rightarrow> EditPayload" where
  "applyPayload path s e content text =
    \<lparr>filePath = path, startLine = s, endLine = e,
     original = rangeText content s e, modified = text,
     originalLineCount = lineCount (rangeText content s e),
     modifiedLineCount = lineCount text,
     hashBefore = hashContent content,
     hashAfter = hashContent (editedContent content s e text), meta = None\<rparr>"

definition applyEdit ::
  "World \<Rightarrow> string option \<Rightarrow> int \<Rightarrow> int \<Rightarrow> string \<Rightarrow> int \<Rightarrow> (error + response) \<times> World" where
  "applyEdit w pathOpt s e text now =
    (case pathOpt of
       None \<Rightarrow> (Inl ValidationError, w)
     | Some path \<Rightarrow>
        if s > e then (Inl ValidationError, w)
        else (case files w path of
           None \<Rightarrow> (Inl NotFoundError, w)
         | Some content \<Rightarrow>
            (Inr Success,
             \<lparr>files = (files w)(path \<mapsto> editedContent content s e text),
              history = snd (appendEvent (history w) path
                              (applyPayload path s e content text) now)\<rparr>)))"

text \<open>
  Modelled from the spec: Undo (section 4.2). The target \<open>E\<close> is the last effective event
  of the file's log; without one the history is empty. The file is read and hashed; a
  hash other than \<open>E.hashAfter\<close> is a conflict. Otherwise the range
  \<open>[E.startLine, E.startLine + E.modifiedLineCount - 1]\<close> is replaced by \<open>E.original\<close>,
  the file is written, and an event is appended: it starts at \<open>E.startLine\<close> and ends
  with the reverted range, its \<open>original\<close> is \<open>E.modified\<close> and its \<open>modified\<close> is
  \<open>E.original\<close>, with their numbers of lines, \<open>hashBefore\<close> is \<open>E.hashAfter\<close>,
  \<open>hashAfter\<close> the hash of the new file, and its meta has the undo flag and \<open>E.seq\<close> as
  the target. The specification does not say what an undo of a file that has
  disappeared returns; the model reports it as not found, the taxonomy's error for an
  absent file.
\<close>

definition undoPayload :: "string \<Rightarrow> EditEvent \<Rightarrow> string \<Rightarrow> EditPayload" where
  "undoPayload path E newContent =
    \<lparr>filePath = path, startLine = startLine E,
     endLine = startLine E + modifiedLineCount E - 1,
     original = modified E, modified = original E,
     originalLineCount = lineCount (modified E),
     modifiedLineCount = lineCount (original E),
     hashBefore = hashAfter E, hashAfter = hashContent newContent,
     meta = Some \<lparr>meta_undo = Some True, meta_undoTarget = Some (seq E),
              meta_redo = None, meta_redoTarget = None,
              instruction = None, mode = None\<rparr>\<rparr>"

definition undoEdit :: "World \<Rightarrow> string option \<Rightarrow> int \<Rightarrow> (error + response) \<times> World" where
  "undoEdit w pathOpt now =
    (case pathOpt of
       None \<Rightarrow> (Inl ValidationError, w)
     | Some path \<Rightarrow>
        (let events = getEvents (history w) path;
             ineffective = buildIneffectiveSeqs events
         in case findLastEffective events ineffective of
              None \<Rightarrow> (Inl EmptyHistoryError, w)
            | Some E \<Rightarrow>
               (case files w path of
                  None \<Rightarrow> (Inl NotFoundError, w)
                | Some content \<Rightarrow>
                   if hashContent content \<noteq> hashAfter E then (Inl ConflictError, w)
                   else
                    (let newContent = editedContent content (startLine E)
                           (startLine E + modifiedLineCount E - 1) (original E)
                     in (Inr (SuccessWithHint (firstLine (original E))),
                         \<lparr>files = (files w)(path \<mapsto> newContent),
                          history = snd (appendEvent (history w) path
                                          (undoPayload path E newContent) now)\<rparr>)))))"

text \<open>
  Modelled from the spec: Redo (section 4.2). \<open>U\<close> is the last undo event that is not
  ineffective, \<open>T\<close> the event of the log whose \<open>seq\<close> is \<open>U\<close>'s undo target. The file is
  read and hashed; a hash other than \<open>U.hashAfter\<close> is a conflict. Otherwise the range
  \<open>[U.startLine, U.startLine + U.modifiedLineCount - 1]\<close> is replaced by \<open>T.modified\<close>,
  the file is written, and an event that mirrors \<open>T\<close> (its range, texts and numbers of
  lines), with \<open>U.hashAfter\<close> as \<open>hashBefore\<close>, the hash of the new file as \<open>hashAfter\<close>,
  the redo flag and \<open>U.seq\<close> as the target, is appended. The specification's log
  invariant says that \<open>T\<close> exists; where the log has no such event there is nothing to
  reapply, and the model reports an empty history at the place where \<open>T.modified\<close> is
  needed.
\<close>

definition undoTargetEvent :: "EditEvent list \<Rightarrow> EditEvent \<Rightarrow> EditEvent option" where
  "undoTargetEvent events U =
    (case meta U of
       None \<Rightarrow> None
     | Some m \<Rightarrow> (case meta_undoTarget m of
                   None \<Rightarrow> None
                 | Some t \<Rightarrow> List.find (\<lambda>e. seq e = t) events))"

definition redoPayload :: "string \<Rightarrow> EditEvent \<Rightarrow> EditEvent \<Rightarrow> string \<Rightarrow> EditPayload" where
  "redoPayload path U T newContent =
    \<lparr>filePath = path, startLine = startLine T, endLine = endLine T,
     original = original T, modified = modified T,
     originalLineCount = originalLineCount T,
     modifiedLineCount = modifiedLineCount T,
     hashBefore = hashAfter U, hashAfter = hashContent newContent,
     meta = Some \<lparr>meta_undo = None, meta_undoTarget = None,
              meta_redo = Some True, meta_redoTarget = Some (seq U),
              instruction = None, mode = None\<rparr>\<rparr>"

definition redoEdit :: "World \<Rightarrow> string option \<Rightarrow> int \<Rightarrow> (error + response) \<times> World" where
  "redoEdit w pathOpt now =
    (case pathOpt of
       None \<Rightarrow> (Inl ValidationError, w)
     | Some path \<Rightarrow>
        (let events = getEvents (history w) path;
             ineffective = buildIneffectiveSeqs events
         in case findLastUndone events ineffective of
              None \<Rightarrow> (Inl EmptyHistoryError, w)
            | Some U \<Rightarrow>
               (case files w path of
                  None \<Rightarrow> (Inl NotFoundError, w)
                | Some content \<Rightarrow>
                   if hashContent content \<noteq> hashAfter U then (Inl ConflictError, w)
                   else
                    (case undoTargetEvent events U of
                       None \<Rightarrow> (Inl EmptyHistoryError, w)
                     | Some T \<Rightarrow>
                        (let newContent = editedContent content (startLine U)
                               (startLine U + modifiedLineCount U - 1) (modified T)
                         in (Inr (SuccessWithHint (firstLine (modified T))),
                             \<lparr>files = (files w)(path \<mapsto> newContent),
                              history = snd (appendEvent (history w) path
                                              (redoPayload path U T newContent) now)\<rparr>))))))"


text \<open>
  The undo target and the redo candidate of a file in a world, as the handlers compute
  them.
\<close>

definition lastEffective :: "World \<Rightarrow> string \<Rightarrow> EditEvent option" where
  "lastEffective w path =
    findLastEffective (getEvents (history w) path)
      (buildIneffectiveSeqs (getEvents (history w) path))"

definition lastUndone :: "World \<Rightarrow> string \<Rightarrow> EditEvent option" where
  "lastUndone w path =
    findLastUndone (getEvents (history w) path)
      (buildIneffectiveSeqs (getEvents (history w) path))"

section \<open>Notions used to state the properties\<close>

text \<open>
  The numbers an event refers to: its undo target when its undo flag is set, its redo
  target when its redo flag is set.
\<close>

definition refTargets :: "EditEvent \<Rightarrow> int set" where
  "refTargets e =
    (case meta e of
       None \<Rightarrow> {}
     | Some m \<Rightarrow>
         (if meta_undo m = Some True then set_option (meta_undoTarget m) else {}) \<union>
         (if meta_redo m = Some True then set_option (meta_redoTarget m) else {}))"

text \<open>
  The \<open>seq\<close> values of a log that some later event of the log refers to, and the logs
  in which every reference names the \<open>seq\<close> of an earlier event (\<open>seen\<close> holds the
  \<open>seq\<close> values passed so far).
\<close>

fun laterReferenced :: "EditEvent list \<Rightarrow> int set" where
  "laterReferenced [] = {}"
| "laterReferenced (e # es) =
    (if \<exists>e' \<in> set es. seq e \<in> refTargets e' then {seq e} else {}) \<union> laterReferenced es"

fun refsEarlier :: "int set \<Rightarrow> EditEvent list \<Rightarrow> bool" where
  "refsEarlier seen [] = True"
| "refsEarlier seen (e # es) =
    (refTargets e \<subseteq> seen \<and> refsEarlier (insert (seq e) seen) es)"

text \<open>
  The tests of the two scans: an event is a candidate for undo when it is not
  ineffective and not an undo event, and a candidate for redo when it is not ineffective
  and is an undo event.
\<close>

definition live :: "int set \<Rightarrow> EditEvent \<Rightarrow> bool" where
  "live ineffective e = (seq e \<notin> ineffective \<and> \<not> undoFlag e)"

definition undone :: "int set \<Rightarrow> EditEvent \<Rightarrow> bool" where
  "undone ineffective e = (seq e \<notin> ineffective \<and> undoFlag e)"

text \<open>
  The store after a sequence of \<open>appendEvent\<close> calls, each with its path, payload and
  clock reading; the reachable stores are \<open>run initialState calls\<close>.
\<close>

fun run :: "HistoryState \<Rightarrow> (string \<times> EditPayload \<times> int) list \<Rightarrow> HistoryState" where
  "run st [] = st"
| "run st ((path, event, now) # calls) = run (snd (appendEvent st path event now)) calls"

text \<open>
  The invariant of the sequence numbers: strictly increasing along every log, no value
  twice in the whole store, and (what makes it inductive) none above the counter.
\<close>

definition seqsIncreasing :: "HistoryState \<Rightarrow> bool" where
  "seqsIncreasing st = (\<forall>p. sorted_wrt (<) (map seq (getEvents st p)))"

definition seqsUnique :: "HistoryState \<Rightarrow> bool" where
  "seqsUnique st =
    (\<forall>p q i j. i < length (getEvents st p) \<and> j < length (getEvents st q)
       \<and> seq (getEvents st p ! i) = seq (getEvents st q ! j) \<longrightarrow> p = q \<and> i = j)"

definition seqsBounded :: "HistoryState \<Rightarrow> bool" where
  "seqsBounded st = (\<forall>p. \<forall>e \<in> set (getEvents st p). seq e \<le> globalSeq st)"


subsection \<open>Concrete events, payloads and worlds\<close>

text \<open>
  The events and payloads of the repository's tests (\<open>makeEvent\<close> of
  \<open>test/history.test.ts\<close>), and the file of \<open>test/api-undo.test.ts\<close>.
\<close>

definition makePayload :: "EditMeta option \<Rightarrow> EditPayload" where
  "makePayload m =
    \<lparr>filePath = ''/tmp/test-file.md'', startLine = 1, endLine = 1,
     original = ''a'', modified = ''b'', originalLineCount = 1, modifiedLineCount = 1,
     hashBefore = ''h0'', hashAfter = ''h1'', meta = m\<rparr>"

definition makeEvent :: "int \<Rightarrow> EditMeta option \<Rightarrow> EditEvent" where
  "makeEvent n m =
    \<lparr>filePath = ''/tmp/test-file.md'', startLine = 1, endLine = 1,
     original = ''a'', modified = ''b'', originalLineCount = 1, modifiedLineCount = 1,
     hashBefore = ''h0'', hashAfter = ''h1'', meta = m, seq = n, timestamp = 0\<rparr>"

definition undoMeta :: "int \<Rightarrow> EditMeta" where
  "undoMeta t =
    \<lparr>meta_undo = Some True, meta_undoTarget = Some t, meta_redo = None,
     meta_redoTarget = None, instruction = None, mode = None\<rparr>"

definition redoMeta :: "int \<Rightarrow> EditMeta" where
  "redoMeta t =
    \<lparr>meta_undo = None, meta_undoTarget = None, meta_redo = Some True,
     meta_redoTarget = Some t, instruction = None, mode = None\<rparr>"

definition noteMeta :: EditMeta where
  "noteMeta =
    \<lparr>meta_undo = None, meta_undoTarget = None, meta_redo = None,
     meta_redoTarget = None, instruction = Some ''fix typo'', mode = Some ''edit''\<rparr>"


definition shortWorld :: World where
  "shortWorld =
    \<lparr>files = [''test.md'' \<mapsto> joinLines [''a'', ''b'']], history = initialState\<rparr>"

definition staleWorld :: "EditEvent list \<Rightarrow> World" where
  "staleWorld events =
    \<lparr>files = [''test.md'' \<mapsto> joinLines [''externally'', ''changed'', []]],
     history = \<lparr>store = [''test.md'' \<mapsto> events], globalSeq = 2\<rparr>\<rparr>"

section \<open>Properties of the history store\<close>

subsection \<open>Appending and reading\<close>

lemma getEvents_appendEvent:
  "getEvents (snd (appendEvent st p event now)) q =
     (if q = p then getEvents st p @ [fst (appendEvent st p event now)] else getEvents st q)"
  by (simp add: appendEvent_def getEvents_def Let_def split: option.splits)

lemma seq_appendEvent: "seq (fst (appendEvent st p event now)) = globalSeq st + 1"
  by (simp add: appendEvent_def Let_def)

lemma globalSeq_appendEvent: "globalSeq (snd (appendEvent st p event now)) = globalSeq st + 1"
  by (simp add: appendEvent_def Let_def)

lemma meta_appendEvent: "meta (fst (appendEvent st p event now)) = meta event"
  by (simp add: appendEvent_def Let_def)

text \<open>
  C6. \<open>appendEvent\<close> returns for every store, path, payload and clock reading (it has no
  failure branch). Afterwards the log of the path is the log before (empty when there
  was none) with exactly one more element at its end. That element is the returned
  event; cut down to the payload's fields it is the payload, its \<open>seq\<close> is the
  incremented counter and its \<open>timestamp\<close> the clock reading.
\<close>

theorem appendEvent_extends_log:
  "\<exists>full st'. appendEvent st path event now = (full, st')
     \<and> getEvents st' path = getEvents st path @ [full]
     \<and> EditPayload.truncate full = event
     \<and> seq full = globalSeq st + 1 \<and> timestamp full = now
     \<and> globalSeq st' = globalSeq st + 1"
  by (simp add: appendEvent_def getEvents_def Let_def EditPayload.truncate_def
      split: option.splits)

text \<open>
  C8. For distinct paths \<open>p\<close> and \<open>q\<close>, appending an event under \<open>p\<close> leaves the log
  of \<open>q\<close> as it was.
\<close>

theorem appendEvent_other_path_unchanged:
  "p \<noteq> q \<Longrightarrow> getEvents (snd (appendEvent st p event now)) q = getEvents st q"
  by (simp add: appendEvent_def getEvents_def Let_def)

theorem appendEvent_other_path_unchanged_witness:
  "''/tmp/test-file.md'' \<noteq> ''/tmp/test-file2.md''
   \<and> getEvents (snd (appendEvent initialState ''/tmp/test-file.md'' (makePayload None) 7))
        ''/tmp/test-file2.md'' = []"
proof -
  have d: "''/tmp/test-file.md'' \<noteq> ''/tmp/test-file2.md''" by simp
  have "getEvents initialState ''/tmp/test-file2.md'' = []"
    by (simp add: getEvents_def initialState_def)
  with appendEvent_other_path_unchanged[OF d, of initialState "makePayload None" 7] d
  show ?thesis by simp
qed

subsection \<open>The sequence numbers\<close>

lemma seqsBounded_appendEvent:
  "seqsBounded st \<Longrightarrow> seqsBounded (snd (appendEvent st p event now))"
  unfolding seqsBounded_def
  by (auto simp: getEvents_appendEvent seq_appendEvent globalSeq_appendEvent split: if_splits)
     fastforce+

lemma seqsIncreasing_appendEvent:
  "seqsBounded st \<Longrightarrow> seqsIncreasing st \<Longrightarrow>
   seqsIncreasing (snd (appendEvent st p event now))"
  unfolding seqsBounded_def seqsIncreasing_def
  by (auto simp: getEvents_appendEvent seq_appendEvent sorted_wrt_append)

lemma seqsUnique_appendEvent:
  assumes b: "seqsBounded st" and u: "seqsUnique st"
  shows "seqsUnique (snd (appendEvent st p event now))"
proof -
  let ?st' = "snd (appendEvent st p event now)"
  have old: "seq (getEvents st q ! i) < globalSeq st + 1" if "i < length (getEvents st q)" for q i
  proof -
    have "getEvents st q ! i \<in> set (getEvents st q)" using that by simp
    then have "seq (getEvents st q ! i) \<le> globalSeq st"
      using b unfolding seqsBounded_def by blast
    then show ?thesis by simp
  qed
  have nth': "seq (getEvents ?st' q ! i) =
      (if q = p \<and> i = length (getEvents st p) then globalSeq st + 1
       else seq (getEvents st q ! i))"
    if "i < length (getEvents ?st' q)" for q i
    using that by (auto simp: getEvents_appendEvent seq_appendEvent nth_append)
  have len': "i < length (getEvents st q) \<or> (q = p \<and> i = length (getEvents st p))"
    if "i < length (getEvents ?st' q)" for q i
    using that by (auto simp: getEvents_appendEvent split: if_splits)
  show ?thesis
    unfolding seqsUnique_def
  proof (intro allI impI)
    fix q r i j
    assume h: "i < length (getEvents ?st' q) \<and> j < length (getEvents ?st' r) \<and>
       seq (getEvents ?st' q ! i) = seq (getEvents ?st' r ! j)"
    then have hi: "i < length (getEvents ?st' q)" and hj: "j < length (getEvents ?st' r)"
      and e: "seq (getEvents ?st' q ! i) = seq (getEvents ?st' r ! j)" by simp_all
    consider (nn) "q = p \<and> i = length (getEvents st p)" "r = p \<and> j = length (getEvents st p)"
      | (no) "q = p \<and> i = length (getEvents st p)" "j < length (getEvents st r)"
      | (on) "i < length (getEvents st q)" "r = p \<and> j = length (getEvents st p)"
      | (oo) "i < length (getEvents st q)" "j < length (getEvents st r)"
      using len'[OF hi] len'[OF hj] by blast
    then show "q = r \<and> i = j"
    proof cases
      case nn
      then show ?thesis by simp
    next
      case no
      then show ?thesis
        using e old[OF no(2)] nth'[OF hi] nth'[OF hj] by (auto split: if_splits)
    next
      case on
      then show ?thesis
        using e old[OF on(1)] nth'[OF hi] nth'[OF hj] by (auto split: if_splits)
    next
      case oo
      then have "seq (getEvents st q ! i) = seq (getEvents st r ! j)"
        using e nth'[OF hi] nth'[OF hj] by (auto split: if_splits)
      then show ?thesis using u oo unfolding seqsUnique_def by blast
    qed
  qed
qed

lemma seqs_initialState:
  "seqsBounded initialState \<and> seqsIncreasing initialState \<and> seqsUnique initialState"
  by (simp add: seqsBounded_def seqsIncreasing_def seqsUnique_def initialState_def
      getEvents_def)

lemma resetStore_initialState: "resetStore st = initialState"
  by (simp add: resetStore_def initialState_def)

lemma seqs_run:
  "seqsBounded st \<and> seqsIncreasing st \<and> seqsUnique st \<Longrightarrow>
   seqsBounded (run st calls) \<and> seqsIncreasing (run st calls) \<and> seqsUnique (run st calls)"
proof (induction calls arbitrary: st)
  case Nil
  then show ?case by simp
next
  case (Cons c calls)
  obtain p ev now where c: "c = (p, ev, now)" by (cases c) auto
  show ?case unfolding c run.simps
    by (rule Cons.IH)
      (use Cons.prems in
        \<open>simp add: seqsBounded_appendEvent seqsIncreasing_appendEvent seqsUnique_appendEvent\<close>)
qed

text \<open>
  C7. In every store reached from the initial state (which is also the state after a
  reset) by a sequence of \<open>appendEvent\<close> calls, the \<open>seq\<close> values of each log are
  strictly increasing in append order and no \<open>seq\<close> value occurs twice in the store, at
  whatever paths and positions; one more \<open>appendEvent\<close> keeps both.
\<close>

theorem seqs_increasing_and_unique:
  "seqsIncreasing (run initialState calls) \<and> seqsUnique (run initialState calls)
   \<and> seqsIncreasing (run (resetStore st) calls) \<and> seqsUnique (run (resetStore st) calls)
   \<and> seqsIncreasing (snd (appendEvent (run initialState calls) path event now))
   \<and> seqsUnique (snd (appendEvent (run initialState calls) path event now))"
  using seqs_run[OF seqs_initialState, of calls]
  by (simp add: seqsIncreasing_appendEvent seqsUnique_appendEvent resetStore_initialState)

theorem seqs_increasing_and_unique_witness:
  "seqsIncreasing (run initialState
      [(''a.md'', makePayload None, 5), (''b.md'', makePayload None, 5),
       (''a.md'', makePayload (Some (undoMeta 1)), 6)])
   \<and> seqsUnique (run initialState
      [(''a.md'', makePayload None, 5), (''b.md'', makePayload None, 5),
       (''a.md'', makePayload (Some (undoMeta 1)), 6)])
   \<and> map seq (getEvents (run initialState
      [(''a.md'', makePayload None, 5), (''b.md'', makePayload None, 5),
       (''a.md'', makePayload (Some (undoMeta 1)), 6)]) ''a.md'') = [1, 3]
   \<and> map seq (getEvents (run initialState
      [(''a.md'', makePayload None, 5), (''b.md'', makePayload None, 5),
       (''a.md'', makePayload (Some (undoMeta 1)), 6)]) ''b.md'') = [2]"
  using seqs_increasing_and_unique[of
      "[(''a.md'', makePayload None, 5), (''b.md'', makePayload None, 5),
        (''a.md'', makePayload (Some (undoMeta 1)), 6)]"]
  by (simp add: getEvents_appendEvent seq_appendEvent globalSeq_appendEvent)
     (simp add: getEvents_def initialState_def)

subsection \<open>The ineffective set\<close>

lemma addTargets_refTargets: "addTargets e s = s \<union> refTargets e"
  by (auto simp: addTargets_def refTargets_def undoFlag_def redoFlag_def Let_def
      split: option.splits)

lemma fold_addTargets: "fold addTargets es s = s \<union> (\<Union>e \<in> set es. refTargets e)"
  by (induction es arbitrary: s) (auto simp: addTargets_refTargets)

lemma buildIneffectiveSeqs_Union:
  "buildIneffectiveSeqs es = (\<Union>e \<in> set es. refTargets e)"
  by (simp add: buildIneffectiveSeqs_def fold_addTargets)

lemma laterReferenced_subset: "laterReferenced es \<subseteq> (\<Union>e \<in> set es. refTargets e)"
  by (induction es) auto

lemma refsEarlier_subset:
  "refsEarlier seen es \<Longrightarrow> (\<Union>e \<in> set es. refTargets e) \<subseteq> seen \<union> laterReferenced es"
proof (induction es arbitrary: seen)
  case Nil
  then show ?case by simp
next
  case (Cons e es)
  from Cons.prems have a: "refTargets e \<subseteq> seen"
    and b: "refsEarlier (insert (seq e) seen) es"
    by simp_all
  from Cons.IH[OF b]
  have c: "(\<Union>e \<in> set es. refTargets e) \<subseteq> insert (seq e) seen \<union> laterReferenced es" .
  show ?case using a c by auto
qed

text \<open>
  C3, as stated, fails: the loop of \<open>buildIneffectiveSeqs\<close> adds every target it meets
  and never compares positions. In the log whose first event is an undo naming
  \<open>seq\<close> 2 and whose second event is the plain event with \<open>seq\<close> 2, the referring
  event is the earlier one, no later event refers to anything, and yet 2 is in the
  result.
\<close>

theorem buildIneffectiveSeqs_earlier_reference:
  "buildIneffectiveSeqs [makeEvent 1 (Some (undoMeta 2)), makeEvent 2 None] = {2}
   \<and> laterReferenced [makeEvent 1 (Some (undoMeta 2)), makeEvent 2 None] = {}"
  by (simp add: buildIneffectiveSeqs_def addTargets_def undoFlag_def redoFlag_def
      makeEvent_def undoMeta_def refTargets_def)

text \<open>
  C3, amended. \<open>buildIneffectiveSeqs\<close> returns exactly the numbers that some event of
  the list, at any position, carries as its undo target with the undo flag set or as its
  redo target with the redo flag set; a number no event refers to is never in the set.
  Every \<open>seq\<close> that a later event refers to is in it, and in a log where every reference
  names the \<open>seq\<close> of an earlier event the result is exactly the set of \<open>seq\<close> values
  referred to by a later event.
\<close>

theorem buildIneffectiveSeqs_referenced:
  "buildIneffectiveSeqs events = {t. \<exists>e \<in> set events. t \<in> refTargets e}
   \<and> laterReferenced events \<subseteq> buildIneffectiveSeqs events
   \<and> (refsEarlier {} events \<longrightarrow> buildIneffectiveSeqs events = laterReferenced events)"
  using laterReferenced_subset[of events] refsEarlier_subset[of "{}" events]
  by (auto simp: buildIneffectiveSeqs_Union)

theorem buildIneffectiveSeqs_referenced_witness:
  "refsEarlier {}
     [makeEvent 1 None, makeEvent 2 (Some (undoMeta 1)), makeEvent 3 (Some (redoMeta 2))]
   \<and> buildIneffectiveSeqs
     [makeEvent 1 None, makeEvent 2 (Some (undoMeta 1)), makeEvent 3 (Some (redoMeta 2))]
     = {1, 2}
   \<and> laterReferenced
     [makeEvent 1 None, makeEvent 2 (Some (undoMeta 1)), makeEvent 3 (Some (redoMeta 2))]
     = {1, 2}"
  using buildIneffectiveSeqs_referenced[of
      "[makeEvent 1 None, makeEvent 2 (Some (undoMeta 1)), makeEvent 3 (Some (redoMeta 2))]"]
  by (auto simp: makeEvent_def undoMeta_def redoMeta_def refTargets_def
      buildIneffectiveSeqs_def addTargets_def undoFlag_def redoFlag_def)

subsection \<open>The backward scans\<close>

lemma scanEffective_None:
  "scanEffective es ineff n = None \<longleftrightarrow> (\<forall>i<n. \<not> live ineff (es ! i))"
  by (induction n) (auto simp: live_def Let_def less_Suc_eq)

lemma scanEffective_Some:
  "scanEffective es ineff n = Some e \<longleftrightarrow>
     (\<exists>i<n. e = es ! i \<and> live ineff (es ! i)
        \<and> (\<forall>j. i < j \<and> j < n \<longrightarrow> \<not> live ineff (es ! j)))"
proof (induction n)
  case 0
  then show ?case by simp
next
  case (Suc n)
  show ?case
  proof (cases "live ineff (es ! n)")
    case True
    then have "scanEffective es ineff (Suc n) = Some (es ! n)"
      by (simp add: live_def)
    moreover have "(\<exists>i<Suc n. e = es ! i \<and> live ineff (es ! i) \<and>
        (\<forall>j. i < j \<and> j < Suc n \<longrightarrow> \<not> live ineff (es ! j))) \<longleftrightarrow> e = es ! n"
      using True by (metis less_Suc_eq lessI not_less_eq)
    ultimately show ?thesis by auto
  next
    case False
    then have "scanEffective es ineff (Suc n) = scanEffective es ineff n"
      by (auto simp: live_def Let_def)
    moreover have "(\<exists>i<Suc n. e = es ! i \<and> live ineff (es ! i) \<and>
        (\<forall>j. i < j \<and> j < Suc n \<longrightarrow> \<not> live ineff (es ! j))) \<longleftrightarrow>
        (\<exists>i<n. e = es ! i \<and> live ineff (es ! i) \<and>
        (\<forall>j. i < j \<and> j < n \<longrightarrow> \<not> live ineff (es ! j)))"
      using False by (metis less_Suc_eq)
    ultimately show ?thesis using Suc.IH by simp
  qed
qed

text \<open>Both scans are a search from the end for the first event that passes the test.\<close>

lemma find_append_case:
  "List.find P (xs @ ys) =
     (case List.find P xs of None \<Rightarrow> List.find P ys | Some x \<Rightarrow> Some x)"
  by (induction xs) auto

lemma scanEffective_find:
  "n \<le> length es \<Longrightarrow> scanEffective es ineff n = List.find (live ineff) (rev (take n es))"
  by (induction n) (auto simp: take_Suc_conv_app_nth live_def Let_def)

lemma findLastEffective_find: "findLastEffective es ineff = List.find (live ineff) (rev es)"
  by (simp add: findLastEffective_def scanEffective_find)

lemma scanUndone_find:
  "n \<le> length es \<Longrightarrow> scanUndone es ineff n = List.find (undone ineff) (rev (take n es))"
  by (induction n) (auto simp: take_Suc_conv_app_nth undone_def Let_def)

lemma findLastUndone_find: "findLastUndone es ineff = List.find (undone ineff) (rev es)"
  by (simp add: findLastUndone_def scanUndone_find)

lemma findLastUndone_undoFlag: "findLastUndone es ineff = Some r \<Longrightarrow> undoFlag r"
  by (auto simp: findLastUndone_find find_Some_iff undone_def)

lemma findLastEffective_append:
  "findLastEffective (xs @ ys) ineff =
    (case findLastEffective ys ineff of None \<Rightarrow> findLastEffective xs ineff | Some r \<Rightarrow> Some r)"
  by (simp add: findLastEffective_find find_append_case split: option.splits)

lemma findLastUndone_append:
  "findLastUndone (xs @ ys) ineff =
    (case findLastUndone ys ineff of None \<Rightarrow> findLastUndone xs ineff | Some r \<Rightarrow> Some r)"
  by (simp add: findLastUndone_find find_append_case split: option.splits)

lemma findLast_single:
  "findLastEffective [x] ineff = (if seq x \<in> ineff \<or> undoFlag x then None else Some x)"
  "findLastUndone [x] ineff = (if seq x \<notin> ineff \<and> undoFlag x then Some x else None)"
  by (simp_all add: findLastEffective_def findLastUndone_def)

text \<open>
  C4. \<open>findLastEffective\<close> returns none exactly when every event of the list is
  ineffective or carries the undo flag. It returns an event \<open>e\<close> exactly when \<open>e\<close> stands
  at an index \<open>i\<close> such that its \<open>seq\<close> is not ineffective, it does not carry the undo
  flag, and every event at a greater index is ineffective or carries the undo flag: the
  event at the greatest such index. The redo flag plays no part: a redo-flagged event
  (without the undo flag) that is not ineffective and has no such event after it is the
  result.
\<close>

theorem findLastEffective_greatest:
  "(findLastEffective events ineffective = None \<longleftrightarrow>
      (\<forall>i<length events. seq (events ! i) \<in> ineffective \<or> undoFlag (events ! i)))
   \<and> (findLastEffective events ineffective = Some e \<longleftrightarrow>
      (\<exists>i<length events. e = events ! i \<and> seq e \<notin> ineffective \<and> \<not> undoFlag e
         \<and> (\<forall>j. i < j \<and> j < length events \<longrightarrow>
               seq (events ! j) \<in> ineffective \<or> undoFlag (events ! j))))
   \<and> (k < length events \<and> redoFlag (events ! k) \<and> \<not> undoFlag (events ! k)
        \<and> seq (events ! k) \<notin> ineffective
        \<and> (\<forall>j. k < j \<and> j < length events \<longrightarrow>
               seq (events ! j) \<in> ineffective \<or> undoFlag (events ! j))
      \<longrightarrow> findLastEffective events ineffective = Some (events ! k))"
proof -
  have a: "findLastEffective events ineffective = None \<longleftrightarrow>
      (\<forall>i<length events. seq (events ! i) \<in> ineffective \<or> undoFlag (events ! i))"
    unfolding findLastEffective_def scanEffective_None by (auto simp: live_def)
  have b: "findLastEffective events ineffective = Some x \<longleftrightarrow>
      (\<exists>i<length events. x = events ! i \<and> seq x \<notin> ineffective \<and> \<not> undoFlag x
         \<and> (\<forall>j. i < j \<and> j < length events \<longrightarrow>
               seq (events ! j) \<in> ineffective \<or> undoFlag (events ! j)))" for x
    unfolding findLastEffective_def scanEffective_Some by (auto simp: live_def)
  show ?thesis
    using a b[of e] b[of "events ! k"] by blast
qed

theorem findLastEffective_greatest_witness:
  "findLastEffective
     [makeEvent 1 None, makeEvent 2 (Some (undoMeta 1)), makeEvent 3 (Some (redoMeta 2))]
     {1, 2} = Some (makeEvent 3 (Some (redoMeta 2)))
   \<and> redoFlag (makeEvent 3 (Some (redoMeta 2)))
   \<and> findLastEffective [makeEvent 1 None, makeEvent 2 (Some (undoMeta 1))] {1} = None"
proof -
  let ?es = "[makeEvent 1 None, makeEvent 2 (Some (undoMeta 1)),
              makeEvent 3 (Some (redoMeta 2))]"
  let ?es2 = "[makeEvent 1 None, makeEvent 2 (Some (undoMeta 1))]"
  have h: "2 < length ?es \<and> redoFlag (?es ! 2) \<and> \<not> undoFlag (?es ! 2)
      \<and> seq (?es ! 2) \<notin> {1, 2}
      \<and> (\<forall>j. 2 < j \<and> j < length ?es \<longrightarrow> seq (?es ! j) \<in> {1, 2} \<or> undoFlag (?es ! j))"
    by (auto simp: makeEvent_def redoMeta_def undoFlag_def redoFlag_def)
  have a: "findLastEffective ?es {1, 2} = Some (?es ! 2)"
    using findLastEffective_greatest[of ?es "{1, 2}" "?es ! 2" 2] h by blast
  have n: "\<forall>i<length ?es2. seq (?es2 ! i) \<in> {1} \<or> undoFlag (?es2 ! i)"
    by (auto simp: less_Suc_eq makeEvent_def undoMeta_def undoFlag_def)
  have b: "findLastEffective ?es2 {1} = None"
    using findLastEffective_greatest[of ?es2 "{1}" "?es2 ! 0" 0] n by blast
  show ?thesis
    using a b h by simp
qed

subsection \<open>What can be undone and redone\<close>

text \<open>
  C5. For a file without events both \<open>canUndo\<close> and \<open>canRedo\<close> are false. After one
  plain event (neither flag set) is appended for the file, \<open>canUndo\<close> is true and
  \<open>canRedo\<close> false. After an undo event (undo flag set, redo flag not set) whose target
  is the \<open>seq\<close> of that event is appended next, \<open>canUndo\<close> is false and \<open>canRedo\<close> true.
\<close>

theorem canUndo_canRedo_lifecycle:
  assumes e: "getEvents st f = []"
    and p1: "\<not> undoFlag p1" "\<not> redoFlag p1"
    and p2: "meta p2 = Some m" "meta_undo m = Some True"
      "meta_undoTarget m = Some (seq (fst (appendEvent st f p1 t1)))"
      "meta_redo m \<noteq> Some True"
  shows "\<not> canUndo st f \<and> \<not> canRedo st f
    \<and> canUndo (snd (appendEvent st f p1 t1)) f
    \<and> \<not> canRedo (snd (appendEvent st f p1 t1)) f
    \<and> \<not> canUndo (snd (appendEvent (snd (appendEvent st f p1 t1)) f p2 t2)) f
    \<and> canRedo (snd (appendEvent (snd (appendEvent st f p1 t1)) f p2 t2)) f"
proof -
  let ?a1 = "appendEvent st f p1 t1"
  let ?a2 = "appendEvent (snd ?a1) f p2 t2"
  have f1: "\<not> undoFlag (fst ?a1)" "\<not> redoFlag (fst ?a1)"
    using p1 by (simp_all add: appendEvent_def Let_def undoFlag_def redoFlag_def)
  have f2: "undoFlag (fst ?a2)" "\<not> redoFlag (fst ?a2)"
    using p2 by (simp_all add: appendEvent_def Let_def undoFlag_def redoFlag_def)
  have m2: "meta (fst ?a2) = Some m"
    using p2 by (simp add: appendEvent_def Let_def)
  have s1: "seq (fst ?a1) = globalSeq st + 1" by (rule seq_appendEvent)
  have s2: "seq (fst ?a2) = globalSeq st + 2"
    by (simp add: seq_appendEvent globalSeq_appendEvent)
  have l1: "getEvents (snd ?a1) f = [fst ?a1]"
    by (simp add: getEvents_appendEvent e)
  have l2: "getEvents (snd ?a2) f = [fst ?a1, fst ?a2]"
    by (simp add: getEvents_appendEvent e)
  have i1: "buildIneffectiveSeqs [fst ?a1] = {}"
    using f1 by (simp add: buildIneffectiveSeqs_def addTargets_def)
  have i2: "buildIneffectiveSeqs [fst ?a1, fst ?a2] = {globalSeq st + 1}"
    using f1 f2 m2 p2 s1 by (simp add: buildIneffectiveSeqs_def addTargets_def)
  have c0: "\<not> canUndo st f" "\<not> canRedo st f"
    by (simp_all add: canUndo_def canRedo_def e findLastEffective_def findLastUndone_def)
  have c1: "canUndo (snd ?a1) f" "\<not> canRedo (snd ?a1) f"
    using f1 by (simp_all add: canUndo_def canRedo_def l1 i1 findLastEffective_def
        findLastUndone_def)
  have c2: "\<not> canUndo (snd ?a2) f" "canRedo (snd ?a2) f"
    using f1 f2 s1 s2 by (simp_all add: canUndo_def canRedo_def l2 i2 findLastEffective_def
        findLastUndone_def numeral_2_eq_2)
  show ?thesis using c0 c1 c2 by simp
qed

theorem canUndo_canRedo_lifecycle_witness:
  "getEvents initialState ''/tmp/test-file.md'' = []
   \<and> \<not> canUndo initialState ''/tmp/test-file.md''
   \<and> \<not> canRedo initialState ''/tmp/test-file.md''
   \<and> canUndo (snd (appendEvent initialState ''/tmp/test-file.md'' (makePayload None) 7))
        ''/tmp/test-file.md''
   \<and> \<not> canRedo (snd (appendEvent initialState ''/tmp/test-file.md'' (makePayload None) 7))
        ''/tmp/test-file.md''
   \<and> \<not> canUndo (snd (appendEvent
          (snd (appendEvent initialState ''/tmp/test-file.md'' (makePayload None) 7))
          ''/tmp/test-file.md'' (makePayload (Some (undoMeta 1))) 8)) ''/tmp/test-file.md''
   \<and> canRedo (snd (appendEvent
          (snd (appendEvent initialState ''/tmp/test-file.md'' (makePayload None) 7))
          ''/tmp/test-file.md'' (makePayload (Some (undoMeta 1))) 8)) ''/tmp/test-file.md''"
proof -
  have e: "getEvents initialState ''/tmp/test-file.md'' = []"
    by (simp add: getEvents_def initialState_def)
  have p1: "\<not> undoFlag (makePayload None)" "\<not> redoFlag (makePayload None)"
    by (simp_all add: undoFlag_def redoFlag_def makePayload_def)
  have p2: "meta (makePayload (Some (undoMeta 1))) = Some (undoMeta 1)"
    "meta_undo (undoMeta 1) = Some True"
    "meta_undoTarget (undoMeta 1) =
       Some (seq (fst (appendEvent initialState ''/tmp/test-file.md'' (makePayload None) 7)))"
    "meta_redo (undoMeta 1) \<noteq> Some True"
    by (simp_all add: makePayload_def undoMeta_def seq_appendEvent initialState_def)
  show ?thesis
    using canUndo_canRedo_lifecycle[OF e p1 p2, of 8] e by simp
qed

subsection \<open>Meta objects without flags\<close>

text \<open>
  C10. An event whose meta object is present, with neither the undo flag nor the redo
  flag set (only \<open>instruction\<close> or \<open>mode\<close>, say, or targets without their flag), is
  treated like the same event without meta. Wherever it stands in a list it adds
  nothing to \<open>buildIneffectiveSeqs\<close>, as its copy without meta does. For
  \<open>findLastEffective\<close> it is a candidate like that copy: when no later event is
  returned, it is the result unless its \<open>seq\<close> is ineffective. \<open>findLastUndone\<close> passes
  over it, as over the copy, and never returns it.
\<close>

theorem flagless_meta_like_no_meta:
  assumes m: "meta e = Some m"
    and u: "meta_undo m \<noteq> Some True" and r: "meta_redo m \<noteq> Some True"
  shows "buildIneffectiveSeqs (xs @ e # ys) = buildIneffectiveSeqs (xs @ ys)
    \<and> buildIneffectiveSeqs (xs @ e # ys) = buildIneffectiveSeqs (xs @ e\<lparr>meta := None\<rparr> # ys)
    \<and> findLastEffective (xs @ e # ys) ineff =
        (case findLastEffective ys ineff of
           Some later \<Rightarrow> Some later
         | None \<Rightarrow> if seq e \<in> ineff then findLastEffective xs ineff else Some e)
    \<and> findLastEffective (xs @ e\<lparr>meta := None\<rparr> # ys) ineff =
        (case findLastEffective ys ineff of
           Some later \<Rightarrow> Some later
         | None \<Rightarrow> if seq e \<in> ineff then findLastEffective xs ineff
                   else Some (e\<lparr>meta := None\<rparr>))
    \<and> findLastUndone (xs @ e # ys) ineff = findLastUndone (xs @ ys) ineff
    \<and> findLastUndone (xs @ e\<lparr>meta := None\<rparr> # ys) ineff = findLastUndone (xs @ ys) ineff
    \<and> findLastUndone events ineff \<noteq> Some e"
proof -
  have nu: "\<not> undoFlag e" "\<not> redoFlag e"
    using m u r by (simp_all add: undoFlag_def redoFlag_def)
  have nu': "\<not> undoFlag (e\<lparr>meta := None\<rparr>)" "\<not> redoFlag (e\<lparr>meta := None\<rparr>)"
    by (simp_all add: undoFlag_def redoFlag_def)
  have t: "refTargets e = {}" "refTargets (e\<lparr>meta := None\<rparr>) = {}"
    using m u r by (simp_all add: refTargets_def)
  have b: "buildIneffectiveSeqs (xs @ e # ys) = buildIneffectiveSeqs (xs @ ys)"
    "buildIneffectiveSeqs (xs @ e\<lparr>meta := None\<rparr> # ys) = buildIneffectiveSeqs (xs @ ys)"
    using t by (simp_all add: buildIneffectiveSeqs_Union)
  have fe: "findLastEffective (xs @ x # ys) ineff =
        (case findLastEffective ys ineff of
           Some later \<Rightarrow> Some later
         | None \<Rightarrow> if seq x \<in> ineff then findLastEffective xs ineff else Some x)"
    if "\<not> undoFlag x" for x
    using findLastEffective_append[of xs "[x] @ ys" ineff]
      findLastEffective_append[of "[x]" ys ineff] that
    by (simp add: findLast_single split: option.splits)
  have fu: "findLastUndone (xs @ x # ys) ineff = findLastUndone (xs @ ys) ineff"
    if "\<not> undoFlag x" for x
    using findLastUndone_append[of xs "[x] @ ys" ineff]
      findLastUndone_append[of "[x]" ys ineff]
      findLastUndone_append[of xs ys ineff] that
    by (simp add: findLast_single split: option.splits)
  have nr: "findLastUndone events ineff \<noteq> Some e"
    using findLastUndone_undoFlag[of events ineff e] nu by blast
  show ?thesis
    using b fe[OF nu(1)] fe[OF nu'(1)] fu[OF nu(1)] fu[OF nu'(1)] nr by simp
qed

theorem flagless_meta_like_no_meta_witness:
  "meta (makeEvent 2 (Some noteMeta)) = Some noteMeta
   \<and> meta_undo noteMeta \<noteq> Some True \<and> meta_redo noteMeta \<noteq> Some True
   \<and> buildIneffectiveSeqs [makeEvent 1 None, makeEvent 2 (Some noteMeta)] = {}
   \<and> findLastEffective [makeEvent 1 None, makeEvent 2 (Some noteMeta)] {}
       = Some (makeEvent 2 (Some noteMeta))
   \<and> findLastUndone [makeEvent 1 None, makeEvent 2 (Some noteMeta)] {} = None"
proof -
  have m: "meta (makeEvent 2 (Some noteMeta)) = Some noteMeta"
    by (simp add: makeEvent_def)
  have u: "meta_undo noteMeta \<noteq> Some True" and r: "meta_redo noteMeta \<noteq> Some True"
    by (simp_all add: noteMeta_def)
  have one: "buildIneffectiveSeqs [makeEvent 1 None] = {}"
    "findLastUndone [makeEvent 1 None] {} = None"
    by (simp_all add: buildIneffectiveSeqs_def addTargets_def undoFlag_def redoFlag_def
        findLastUndone_def makeEvent_def)
  have nil: "findLastEffective [] {} = None"
    by (simp add: findLastEffective_def)
  show ?thesis
    using flagless_meta_like_no_meta[OF m u r, of "[makeEvent 1 None]" "[]" "{}" "[]"]
      m u r one nil
    by simp
qed

section \<open>Properties of the content hash\<close>

lemma digest_cases:
  obtains a b c d e f g h where "x = (a, b, c, d, e, f, g, (h::'h))"
  by (cases x rule: prod_cases7) (metis surj_pair)

lemma hexWord_length: "length (hexWord w) = 8"
  by (simp add: hexWord_def)

lemma hexDigest_length: "length (hexDigest x) = 64"
  by (cases x rule: digest_cases) (simp add: hexWord_length)

lemma hashContent_length: "length (hashContent c) = 64"
  by (simp add: hashContent_def hexDigest_length)

lemma hexDigit_hex: "hexDigit n \<in> set ''0123456789abcdef''"
  unfolding hexDigit_def by (rule nth_mem) simp

lemma hexWord_hex: "set (hexWord w) \<subseteq> set ''0123456789abcdef''"
  unfolding hexWord_def using hexDigit_hex by auto

lemma hexDigest_hex: "set (hexDigest x) \<subseteq> set ''0123456789abcdef''"
proof (cases x rule: digest_cases)
  case (1 a b c d e f g h)
  show ?thesis unfolding 1 hexDigest.simps set_append
    by (intro Un_least hexWord_hex)
qed

lemma hashContent_hex: "set (hashContent c) \<subseteq> set ''0123456789abcdef''"
  by (simp only: hashContent_def hexDigest_hex)

subsection \<open>A known answer\<close>

text \<open>
  The standard's one-block example: the digest of \<open>abc\<close>. The computation is split
  into the padded block, its message schedule and the 64 rounds in groups of eight, so
  that every step is a short evaluation.
\<close>

lemma replicate_numeral_Cons: "replicate (numeral k) x = x # replicate (pred_numeral k) x"
  by (simp add: numeral_eq_Suc)

lemma upt_0_8: "[0..<8] = [0, 1, 2, 3, 4, 5, 6, 7]"
  by (simp add: upt_rec)

lemma expandSchedule_numeral:
  "expandSchedule (numeral k) w =
    expandSchedule (pred_numeral k)
      (w @ [smallSigma1 (w ! (length w - 2)) + w ! (length w - 7) +
            smallSigma0 (w ! (length w - 15)) + w ! (length w - 16)])"
  by (simp add: numeral_eq_Suc)

lemma abc_block:
  "toWords (padMessage [97, 98, 99]) =
     [0x61626380, 0, 0, 0, 0, 0, 0, 0, 0, 0, 0, 0, 0, 0, 0, 0x18]"
  "length (padMessage [97, 98, 99]) = 64"
  by (simp_all add: padMessage_def Let_def upt_0_8 replicate_numeral_Cons)

lemma abc_schedule:
  "expandSchedule 48 [0x61626380, 0, 0, 0, 0, 0, 0, 0, 0, 0, 0, 0, 0, 0, 0, 0x18] =
   [0x61626380, 0x00000000, 0x00000000, 0x00000000, 0x00000000, 0x00000000, 0x00000000, 0x00000000,
    0x00000000, 0x00000000, 0x00000000, 0x00000000, 0x00000000, 0x00000000, 0x00000000, 0x00000018,
    0x61626380, 0x000f0000, 0x7da86405, 0x600003c6, 0x3e9d7b78, 0x0183fc00, 0x12dcbfdb, 0xe2e2c38e,
    0xc8215c1a, 0xb73679a2, 0xe5bc3909, 0x32663c5b, 0x9d209d67, 0xec8726cb, 0x702138a4, 0xd3b7973b,
    0x93f5997f, 0x3b68ba73, 0xaff4ffc1, 0xf10a5c62, 0x0a8b3996, 0x72af830a, 0x9409e33e, 0x24641522,
    0x9f47bf94, 0xf0a64f5a, 0x3e246a79, 0x27333ba3, 0x0c4763f2, 0x840abf27, 0x7a290d5d, 0x065c43da,
    0xfb3e89cb, 0xcc7617db, 0xb9e66c34, 0xa9993667, 0x84badedd, 0xc21462bc, 0x1487472c, 0xb20f7a99,
    0xef57b9cd, 0xebe6b238, 0x9fe3095e, 0x78bc8d4b, 0xa43fcf15, 0x668b2ff8, 0xeeaba2cc, 0x12b1edeb]"
  by (simp add: expandSchedule_numeral smallSigma0_def smallSigma1_def rotr_def)

lemma abc_rounds_0:
  "fold compressRound
     ((0x428a2f98, 0x61626380) #
      (0x71374491, 0x00000000) #
      (0xb5c0fbcf, 0x00000000) #
      (0xe9b5dba5, 0x00000000) #
      (0x3956c25b, 0x00000000) #
      (0x59f111f1, 0x00000000) #
      (0x923f82a4, 0x00000000) #
      (0xab1c5ed5, 0x00000000) # [])
     (0x6a09e667, 0xbb67ae85, 0x3c6ef372, 0xa54ff53a, 0x510e527f, 0x9b05688c, 0x1f83d9ab, 0x5be0cd19)
   = (0x85a07b5f, 0xe5030380, 0x2b4209f5, 0x04409a6a, 0x0c657a79, 0x9b27a401, 0x714260ad, 0x43ada245)"
  by (simp add: bigSigma0_def bigSigma1_def Ch_def Maj_def rotr_def)

lemma abc_rounds_8:
  "fold compressRound
     ((0xd807aa98, 0x00000000) #
      (0x12835b01, 0x00000000) #
      (0x243185be, 0x00000000) #
      (0x550c7dc3, 0x00000000) #
      (0x72be5d74, 0x00000000) #
      (0x80deb1fe, 0x00000000) #
      (0x9bdc06a7, 0x00000000) #
      (0xc19bf174, 0x00000018) # [])
     (0x85a07b5f, 0xe5030380, 0x2b4209f5, 0x04409a6a, 0x0c657a79, 0x9b27a401, 0x714260ad, 0x43ada245)
   = (0xb0fa238e, 0xc0645fde, 0xd932eb16, 0x87912990, 0x07590dcd, 0x0b92f20c, 0x745a48de, 0x1e578218)"
  by (simp add: bigSigma0_def bigSigma1_def Ch_def Maj_def rotr_def)

lemma abc_rounds_16:
  "fold compressRound
     ((0xe49b69c1, 0x61626380) #
      (0xefbe4786, 0x000f0000) #
      (0x0fc19dc6, 0x7da86405) #
      (0x240ca1cc, 0x600003c6) #
      (0x2de92c6f, 0x3e9d7b78) #
      (0x4a7484aa, 0x0183fc00) #
      (0x5cb0a9dc, 0x12dcbfdb) #
      (0x76f988da, 0xe2e2c38e) # [])
     (0xb0fa238e, 0xc0645fde, 0xd932eb16, 0x87912990, 0x07590dcd, 0x0b92f20c, 0x745a48de, 0x1e578218)
   = (0xc5d53d8d, 0xa7a3623f, 0xc2606d6d, 0x9dc68b63, 0xaa47c347, 0x49f5114a, 0xe1257970, 0x8ada8930)"
  by (simp add: bigSigma0_def bigSigma1_def Ch_def Maj_def rotr_def)

lemma abc_rounds_24:
  "fold compressRound
     ((0x983e5152, 0xc8215c1a) #
      (0xa831c66d, 0xb73679a2) #
      (0xb00327c8, 0xe5bc3909) #
      (0xbf597fc7, 0x32663c5b) #
      (0xc6e00bf3, 0x9d209d67) #
      (0xd5a79147, 0xec8726cb) #
      (0x06ca6351, 0x702138a4) #
      (0x14292967, 0xd3b7973b) # [])
     (0xc5d53d8d, 0xa7a3623f, 0xc2606d6d, 0x9dc68b63, 0xaa47c347, 0x49f5114a, 0xe1257970, 0x8ada8930)
   = (0x73b33bf5, 0xea992a22, 0xa0060b30, 0x363482c9, 0xba591112, 0x0109ab3a, 0xade79437, 0x6112a3b7)"
  by (simp add: bigSigma0_def bigSigma1_def Ch_def Maj_def rotr_def)

lemma abc_rounds_32:
  "fold compressRound
     ((0x27b70a85, 0x93f5997f) #
      (0x2e1b2138, 0x3b68ba73) #
      (0x4d2c6dfc, 0xaff4ffc1) #
      (0x53380d13, 0xf10a5c62) #
      (0x650a7354, 0x0a8b3996) #
      (0x766a0abb, 0x72af830a) #
      (0x81c2c92e, 0x9409e33e) #
      (0x92722c85, 0x24641522) # [])
     (0x73b33bf5, 0xea992a22, 0xa0060b30, 0x363482c9, 0xba591112, 0x0109ab3a, 0xade79437, 0x6112a3b7)
   = (0x79ea687a, 0x6dc57a8a, 0x34df1604, 0x41a65cb1, 0x1efbc0a0, 0xf0781bc8, 0xa507a53d, 0x0772a26b)"
  by (simp add: bigSigma0_def bigSigma1_def Ch_def Maj_def rotr_def)

lemma abc_rounds_40:
  "fold compressRound
     ((0xa2bfe8a1, 0x9f47bf94) #
      (0xa81a664b, 0xf0a64f5a) #
      (0xc24b8b70, 0x3e246a79) #
      (0xc76c51a3, 0x27333ba3) #
      (0xd192e819, 0x0c4763f2) #
      (0xd6990624, 0x840abf27) #
      (0xf40e3585, 0x7a290d5d) #
      (0x106aa070, 0x065c43da) # [])
     (0x79ea687a, 0x6dc57a8a, 0x34df1604, 0x41a65cb1, 0x1efbc0a0, 0xf0781bc8, 0xa507a53d, 0x0772a26b)
   = (0x4172328d, 0xa14c14b0, 0x72ab4b91, 0x26628815, 0xfecf0bc6, 0xd57b94a9, 0xb7755da1, 0xa80f11f0)"
  by (simp add: bigSigma0_def bigSigma1_def Ch_def Maj_def rotr_def)

lemma abc_rounds_48:
  "fold compressRound
     ((0x19a4c116, 0xfb3e89cb) #
      (0x1e376c08, 0xcc7617db) #
      (0x2748774c, 0xb9e66c34) #
      (0x34b0bcb5, 0xa9993667) #
      (0x391c0cb3, 0x84badedd) #
      (0x4ed8aa4a, 0xc21462bc) #
      (0x5b9cca4f, 0x1487472c) #
      (0x682e6ff3, 0xb20f7a99) # [])
     (0x4172328d, 0xa14c14b0, 0x72ab4b91, 0x26628815, 0xfecf0bc6, 0xd57b94a9, 0xb7755da1, 0xa80f11f0)
   = (0x38cc9913, 0x3ec45cdb, 0xf5702fdb, 0x101fd28f, 0x54cb266b, 0xe50e1b4f, 0x9f4787c3, 0x529e7d00)"
  by (simp add: bigSigma0_def bigSigma1_def Ch_def Maj_def rotr_def)

lemma abc_rounds_56:
  "fold compressRound
     ((0x748f82ee, 0xef57b9cd) #
      (0x78a5636f, 0xebe6b238) #
      (0x84c87814, 0x9fe3095e) #
      (0x8cc70208, 0x78bc8d4b) #
      (0x90befffa, 0xa43fcf15) #
      (0xa4506ceb, 0x668b2ff8) #
      (0xbef9a3f7, 0xeeaba2cc) #
      (0xc67178f2, 0x12b1edeb) # [])
     (0x38cc9913, 0x3ec45cdb, 0xf5702fdb, 0x101fd28f, 0x54cb266b, 0xe50e1b4f, 0x9f4787c3, 0x529e7d00)
   = (0x506e3058, 0xd39a2165, 0x04d24d6c, 0xb85e2ce9, 0x5ef50f24, 0xfb121210, 0x948d25b6, 0x961f4894)"
  by (simp add: bigSigma0_def bigSigma1_def Ch_def Maj_def rotr_def)


lemma abc_compress:
  "fold compressRound (zip roundConstants
   [0x61626380, 0x00000000, 0x00000000, 0x00000000, 0x00000000, 0x00000000, 0x00000000, 0x00000000,
    0x00000000, 0x00000000, 0x00000000, 0x00000000, 0x00000000, 0x00000000, 0x00000000, 0x00000018,
    0x61626380, 0x000f0000, 0x7da86405, 0x600003c6, 0x3e9d7b78, 0x0183fc00, 0x12dcbfdb, 0xe2e2c38e,
    0xc8215c1a, 0xb73679a2, 0xe5bc3909, 0x32663c5b, 0x9d209d67, 0xec8726cb, 0x702138a4, 0xd3b7973b,
    0x93f5997f, 0x3b68ba73, 0xaff4ffc1, 0xf10a5c62, 0x0a8b3996, 0x72af830a, 0x9409e33e, 0x24641522,
    0x9f47bf94, 0xf0a64f5a, 0x3e246a79, 0x27333ba3, 0x0c4763f2, 0x840abf27, 0x7a290d5d, 0x065c43da,
    0xfb3e89cb, 0xcc7617db, 0xb9e66c34, 0xa9993667, 0x84badedd, 0xc21462bc, 0x1487472c, 0xb20f7a99,
    0xef57b9cd, 0xebe6b238, 0x9fe3095e, 0x78bc8d4b, 0xa43fcf15, 0x668b2ff8, 0xeeaba2cc, 0x12b1edeb])
     initialDigest
   = (0x506e3058, 0xd39a2165, 0x04d24d6c, 0xb85e2ce9, 0x5ef50f24, 0xfb121210, 0x948d25b6, 0x961f4894)"
proof -
  have "zip roundConstants
   ([0x61626380, 0x00000000, 0x00000000, 0x00000000, 0x00000000, 0x00000000, 0x00000000, 0x00000000,
    0x00000000, 0x00000000, 0x00000000, 0x00000000, 0x00000000, 0x00000000, 0x00000000, 0x00000018,
    0x61626380, 0x000f0000, 0x7da86405, 0x600003c6, 0x3e9d7b78, 0x0183fc00, 0x12dcbfdb, 0xe2e2c38e,
    0xc8215c1a, 0xb73679a2, 0xe5bc3909, 0x32663c5b, 0x9d209d67, 0xec8726cb, 0x702138a4, 0xd3b7973b,
    0x93f5997f, 0x3b68ba73, 0xaff4ffc1, 0xf10a5c62, 0x0a8b3996, 0x72af830a, 0x9409e33e, 0x24641522,
    0x9f47bf94, 0xf0a64f5a, 0x3e246a79, 0x27333ba3, 0x0c4763f2, 0x840abf27, 0x7a290d5d, 0x065c43da,
    0xfb3e89cb, 0xcc7617db, 0xb9e66c34, 0xa9993667, 0x84badedd, 0xc21462bc, 0x1487472c, 0xb20f7a99,
    0xef57b9cd, 0xebe6b238, 0x9fe3095e, 0x78bc8d4b, 0xa43fcf15, 0x668b2ff8, 0xeeaba2cc, 0x12b1edeb] :: w32 list) =
     ((0x428a2f98, 0x61626380) #
      (0x71374491, 0x00000000) #
      (0xb5c0fbcf, 0x00000000) #
      (0xe9b5dba5, 0x00000000) #
      (0x3956c25b, 0x00000000) #
      (0x59f111f1, 0x00000000) #
      (0x923f82a4, 0x00000000) #
      (0xab1c5ed5, 0x00000000) # []) @
     ((0xd807aa98, 0x00000000) #
      (0x12835b01, 0x00000000) #
      (0x243185be, 0x00000000) #
      (0x550c7dc3, 0x00000000) #
      (0x72be5d74, 0x00000000) #
      (0x80deb1fe, 0x00000000) #
      (0x9bdc06a7, 0x00000000) #
      (0xc19bf174, 0x00000018) # []) @
     ((0xe49b69c1, 0x61626380) #
      (0xefbe4786, 0x000f0000) #
      (0x0fc19dc6, 0x7da86405) #
      (0x240ca1cc, 0x600003c6) #
      (0x2de92c6f, 0x3e9d7b78) #
      (0x4a7484aa, 0x0183fc00) #
      (0x5cb0a9dc, 0x12dcbfdb) #
      (0x76f988da, 0xe2e2c38e) # []) @
     ((0x983e5152, 0xc8215c1a) #
      (0xa831c66d, 0xb73679a2) #
      (0xb00327c8, 0xe5bc3909) #
      (0xbf597fc7, 0x32663c5b) #
      (0xc6e00bf3, 0x9d209d67) #
      (0xd5a79147, 0xec8726cb) #
      (0x06ca6351, 0x702138a4) #
      (0x14292967, 0xd3b7973b) # []) @
     ((0x27b70a85, 0x93f5997f) #
      (0x2e1b2138, 0x3b68ba73) #
      (0x4d2c6dfc, 0xaff4ffc1) #
      (0x53380d13, 0xf10a5c62) #
      (0x650a7354, 0x0a8b3996) #
      (0x766a0abb, 0x72af830a) #
      (0x81c2c92e, 0x9409e33e) #
      (0x92722c85, 0x24641522) # []) @
     ((0xa2bfe8a1, 0x9f47bf94) #
      (0xa81a664b, 0xf0a64f5a) #
      (0xc24b8b70, 0x3e246a79) #
      (0xc76c51a3, 0x27333ba3) #
      (0xd192e819, 0x0c4763f2) #
      (0xd6990624, 0x840abf27) #
      (0xf40e3585, 0x7a290d5d) #
      (0x106aa070, 0x065c43da) # []) @
     ((0x19a4c116, 0xfb3e89cb) #
      (0x1e376c08, 0xcc7617db) #
      (0x2748774c, 0xb9e66c34) #
      (0x34b0bcb5, 0xa9993667) #
      (0x391c0cb3, 0x84badedd) #
      (0x4ed8aa4a, 0xc21462bc) #
      (0x5b9cca4f, 0x1487472c) #
      (0x682e6ff3, 0xb20f7a99) # []) @
     ((0x748f82ee, 0xef57b9cd) #
      (0x78a5636f, 0xebe6b238) #
      (0x84c87814, 0x9fe3095e) #
      (0x8cc70208, 0x78bc8d4b) #
      (0x90befffa, 0xa43fcf15) #
      (0xa4506ceb, 0x668b2ff8) #
      (0xbef9a3f7, 0xeeaba2cc) #
      (0xc67178f2, 0x12b1edeb) # [])"
    by (simp add: roundConstants_def)
  then show ?thesis
    by (simp only: fold_append o_apply initialDigest_def abc_rounds_0 abc_rounds_8 abc_rounds_16 abc_rounds_24 abc_rounds_32 abc_rounds_40 abc_rounds_48 abc_rounds_56)
qed

lemma abc_hex:
  "hexDigest (0xba7816bf, 0x8f01cfea, 0x414140de, 0x5dae2223, 0xb00361a3, 0x96177a9c, 0xb410ff61, 0xf20015ad) =
     ''ba7816bf8f01cfea414140de5dae2223b00361a396177a9cb410ff61f20015ad''"
  by (simp add: hexWord_def hexDigit_def upt_0_8)

lemma hashContent_abc:
  "hashContent ''abc'' = ''ba7816bf8f01cfea414140de5dae2223b00361a396177a9cb410ff61f20015ad''"
proof -
  have "sha256 (map of_char ''abc'') =
      compressBlock [0x61626380, 0, 0, 0, 0, 0, 0, 0, 0, 0, 0, 0, 0, 0, 0, 0x18] initialDigest"
    by (simp add: sha256_def Let_def abc_block)
  also have "\<dots> = (0xba7816bf, 0x8f01cfea, 0x414140de, 0x5dae2223, 0xb00361a3, 0x96177a9c, 0xb410ff61, 0xf20015ad)"
    unfolding compressBlock_def abc_schedule abc_compress
    by (simp add: initialDigest_def)
  finally show ?thesis
    unfolding hashContent_def by (simp only: abc_hex)
qed

text \<open>
  C9. \<open>hashContent\<close> is deterministic: equal texts have equal digests. Every digest is
  a string of 64 characters, each of them one of the sixteen lowercase hexadecimal
  digits; at four bits a digit that is a digest of 256 bits, which is at least 160.
\<close>

theorem hashContent_deterministic_hex:
  "(c1 = c2 \<longrightarrow> hashContent c1 = hashContent c2)
   \<and> length (hashContent c1) = 64
   \<and> set (hashContent c1) \<subseteq> set ''0123456789abcdef''
   \<and> 4 * length (hashContent c1) = 256
   \<and> 160 \<le> 4 * length (hashContent c1)"
  using hashContent_hex[of c1] by (simp add: hashContent_length)

theorem hashContent_deterministic_hex_witness:
  "hashContent ''abc'' = hashContent ''abc''
   \<and> hashContent ''abc''
       = ''ba7816bf8f01cfea414140de5dae2223b00361a396177a9cb410ff61f20015ad''
   \<and> length (hashContent ''abc'') = 64
   \<and> set (hashContent ''abc'') \<subseteq> set ''0123456789abcdef''
   \<and> 4 * length (hashContent ''abc'') = 256"
  using hashContent_deterministic_hex[of "''abc''" "''abc''"] hashContent_abc
  by simp

section \<open>Properties of the protocol\<close>

subsection \<open>Lines\<close>













subsection \<open>The successful steps\<close>

lemma applyEdit_step:
  assumes "files w path = Some content" and "s \<le> e"
  shows "applyEdit w (Some path) s e new now =
    (Inr Success,
     \<lparr>files = (files w)(path \<mapsto> editedContent content s e new),
      history = snd (appendEvent (history w) path (applyPayload path s e content new) now)\<rparr>)"
  using assms by (simp add: applyEdit_def)

lemma undoEdit_step:
  assumes "lastEffective w path = Some E"
    and "files w path = Some content" and "hashAfter E = hashContent content"
  shows "undoEdit w (Some path) now =
    (Inr (SuccessWithHint (firstLine (original E))),
     \<lparr>files = (files w)(path \<mapsto> editedContent content (startLine E)
                 (startLine E + modifiedLineCount E - 1) (original E)),
      history = snd (appendEvent (history w) path
                  (undoPayload path E (editedContent content (startLine E)
                     (startLine E + modifiedLineCount E - 1) (original E))) now)\<rparr>)"
  using assms by (simp add: undoEdit_def lastEffective_def Let_def)


lemma fields_appendEvent:
  "startLine (fst (appendEvent h p payload now)) = startLine payload"
  "endLine (fst (appendEvent h p payload now)) = endLine payload"
  "original (fst (appendEvent h p payload now)) = original payload"
  "modified (fst (appendEvent h p payload now)) = modified payload"
  "modifiedLineCount (fst (appendEvent h p payload now)) = modifiedLineCount payload"
  "hashAfter (fst (appendEvent h p payload now)) = hashAfter payload"
  by (simp_all add: appendEvent_def Let_def)

subsection \<open>The store after a sequence of applies\<close>








lemma plain_single:
  assumes "meta E = None"
  shows "findLastEffective [E] (buildIneffectiveSeqs [E]) = Some E"
  using assms
  by (simp add: buildIneffectiveSeqs_Union refTargets_def findLast_single undoFlag_def)

subsection \<open>Undo reverses the last edit\<close>


text \<open>
  An edit that starts before line 1 is not reversed either: on the same file the apply
  of \<open>X\<close> to the range \<open>[0, 0]\<close> puts \<open>X\<close> before the first line and records \<open>a\<close> as its
  original, and the undo then gives \<open>a\nX\na\nb\<close>.
\<close>

lemma undo_after_apply_before_first_line:
  "fst (applyEdit shortWorld (Some ''test.md'') 0 0 ''X'' 10) = Inr Success
   \<and> files (snd (applyEdit shortWorld (Some ''test.md'') 0 0 ''X'' 10)) ''test.md''
       = Some (joinLines [''X'', ''a'', ''b''])
   \<and> fst (undoEdit (snd (applyEdit shortWorld (Some ''test.md'') 0 0 ''X'' 10))
         (Some ''test.md'') 20) = Inr (SuccessWithHint ''a'')
   \<and> files (snd (undoEdit (snd (applyEdit shortWorld (Some ''test.md'') 0 0 ''X'' 10))
         (Some ''test.md'') 20)) ''test.md''
       = Some (joinLines [''a'', ''X'', ''a'', ''b''])"
proof -
  let ?p = "''test.md''"
  let ?c = "joinLines [''a'', ''b'']"
  let ?c1 = "editedContent ?c 0 0 ''X''"
  let ?a1 = "appendEvent (history shortWorld) ?p (applyPayload ?p 0 0 ?c ''X'') 10"
  let ?E = "fst ?a1"
  let ?W1 = "\<lparr>files = (files shortWorld)(?p \<mapsto> ?c1), history = snd ?a1\<rparr>"
  have f: "files shortWorld ?p = Some ?c"
    by (simp add: shortWorld_def)
  have ap: "applyEdit shortWorld (Some ?p) 0 0 ''X'' 10 = (Inr Success, ?W1)"
    by (rule applyEdit_step[OF f]) simp
  have c1: "?c1 = joinLines [''X'', ''a'', ''b'']"
    by (simp add: editedContent_def replaceRange_def)
  have E: "meta ?E = None" "startLine ?E = 0" "modifiedLineCount ?E = 1"
    "original ?E = ''a''" "hashAfter ?E = hashContent ?c1"
    by (simp_all add: meta_appendEvent fields_appendEvent applyPayload_def
        lineCount_def rangeText_def extractRange_def)
  have l1: "getEvents (history ?W1) ?p = [?E]"
    by (simp add: getEvents_appendEvent) (simp add: getEvents_def shortWorld_def initialState_def)
  have le: "lastEffective ?W1 ?p = Some ?E"
    unfolding lastEffective_def l1 by (rule plain_single[OF E(1)])
  have f1: "files ?W1 ?p = Some ?c1" by simp
  have c2: "editedContent ?c1 0 (0 + 1 - 1) ''a'' = joinLines [''a'', ''X'', ''a'', ''b'']"
    unfolding c1 by (simp add: editedContent_def replaceRange_def)
  have un: "undoEdit ?W1 (Some ?p) 20 =
      (Inr (SuccessWithHint (firstLine ''a'')),
       \<lparr>files = (files ?W1)(?p \<mapsto> joinLines [''a'', ''X'', ''a'', ''b'']),
        history = snd (appendEvent (history ?W1) ?p
                    (undoPayload ?p ?E (joinLines [''a'', ''X'', ''a'', ''b''])) 20)\<rparr>)"
    using undoEdit_step[OF le f1 E(5), of 20] unfolding E(2,3,4) c2 .
  have fl: "firstLine ''a'' = ''a''" by (simp add: firstLine_def)
  show ?thesis
    unfolding ap un fst_conv snd_conv fl
    using c1 by simp
qed



subsection \<open>Conflicts and failures\<close>

text \<open>
  C2. When the undo target \<open>E\<close> (the last effective event) exists and the hash of the
  file's current content differs from \<open>E.hashAfter\<close>, undo fails with the conflict
  error and returns the world it was given: neither a file nor the history store has
  changed. The same holds for redo and the hash recorded by the undo event \<open>U\<close> that
  \<open>findLastUndone\<close> yields. The conflict error is reported as HTTP status 409. More
  generally every failure of undo and of redo, with or without a file path, returns the
  world unchanged.
\<close>

theorem conflict_leaves_world_unchanged:
  "(lastEffective w path = Some E
     \<and> files w path = Some content \<and> hashContent content \<noteq> hashAfter E
     \<longrightarrow> undoEdit w (Some path) now = (Inl ConflictError, w))
   \<and> (lastUndone w path = Some U
     \<and> files w path = Some content \<and> hashContent content \<noteq> hashAfter U
     \<longrightarrow> redoEdit w (Some path) now = (Inl ConflictError, w))
   \<and> httpStatus ConflictError = 409
   \<and> (\<forall>err. fst (undoEdit w pathOpt now) = Inl err \<longrightarrow> snd (undoEdit w pathOpt now) = w)
   \<and> (\<forall>err. fst (redoEdit w pathOpt now) = Inl err \<longrightarrow> snd (redoEdit w pathOpt now) = w)"
  by (auto simp: undoEdit_def redoEdit_def lastEffective_def lastUndone_def Let_def
      split: option.splits if_splits)

text \<open>
  The scenario of the tests: the file was changed from outside after an apply, and after
  an undo.
\<close>

theorem conflict_leaves_world_unchanged_witness:
  "undoEdit (staleWorld [makeEvent 1 None]) (Some ''test.md'') 9
     = (Inl ConflictError, staleWorld [makeEvent 1 None])
   \<and> redoEdit (staleWorld [makeEvent 1 None, makeEvent 2 (Some (undoMeta 1))])
       (Some ''test.md'') 9
     = (Inl ConflictError, staleWorld [makeEvent 1 None, makeEvent 2 (Some (undoMeta 1))])"
proof -
  let ?c = "joinLines [''externally'', ''changed'', []]"
  let ?l1 = "[makeEvent 1 None]"
  let ?l2 = "[makeEvent 1 None, makeEvent 2 (Some (undoMeta 1))]"
  have g: "getEvents (history (staleWorld l)) ''test.md'' = l" for l
    by (simp add: staleWorld_def getEvents_def)
  have fl: "files (staleWorld l) ''test.md'' = Some ?c" for l
    by (simp add: staleWorld_def)
  have ne: "hashContent ?c \<noteq> hashAfter (makeEvent n m)" for n m
    using hashContent_length[of ?c] by (auto simp: makeEvent_def)
  have b1: "buildIneffectiveSeqs ?l1 = {}" and b2: "buildIneffectiveSeqs ?l2 = {1}"
    by (simp_all add: buildIneffectiveSeqs_def addTargets_def undoFlag_def redoFlag_def
        makeEvent_def undoMeta_def)
  have e: "lastEffective (staleWorld ?l1) ''test.md'' = Some (makeEvent 1 None)"
    unfolding lastEffective_def g b1
    by (simp add: findLastEffective_def undoFlag_def makeEvent_def)
  have u: "lastUndone (staleWorld ?l2) ''test.md'' = Some (makeEvent 2 (Some (undoMeta 1)))"
    unfolding lastUndone_def g b2
    by (simp add: findLastUndone_def undoFlag_def makeEvent_def undoMeta_def numeral_2_eq_2)
  show ?thesis
    using conflict_leaves_world_unchanged[where w = "staleWorld ?l1" and path = "''test.md''"
        and E = "makeEvent 1 None" and content = ?c and now = 9]
      conflict_leaves_world_unchanged[where w = "staleWorld ?l2" and path = "''test.md''"
        and U = "makeEvent 2 (Some (undoMeta 1))" and content = ?c and now = 9]
      e u fl ne by blast
qed

end
